theory Spec2Isabelle
  imports Main
begin

section \<open>Values crossing the pipe\<close>

text \<open>
  A decoded JSON value, as \<^verbatim>\<open>JSON.parse\<close> hands it to the host. JavaScript numbers
  are IEEE doubles; the model keeps the integers (which the correlation ids and the
  counter \<^verbatim>\<open>messageId\<close> are, exactly, below \<open>2^53\<close>) and writes them as \<open>int\<close>.
\<close>

datatype json =
    JNull
  | JBool bool
  | JNumber int
  | JString string
  | JArray "json list"
  | JObject "(string \<times> json) list"

text \<open>
  JavaScript's ToBoolean on a decoded value: \<^verbatim>\<open>null\<close>, \<^verbatim>\<open>false\<close>, \<^verbatim>\<open>0\<close> and
  \<^verbatim>\<open>""\<close> are falsy, every array and object is truthy.
\<close>

fun truthy :: "json \<Rightarrow> bool" where
  "truthy JNull = False"
| "truthy (JBool b) = b"
| "truthy (JNumber n) = (n \<noteq> 0)"
| "truthy (JString s) = (s \<noteq> [])"
| "truthy (JArray xs) = True"
| "truthy (JObject kvs) = True"

text \<open>
  An optional field of a message read in a condition (\<^verbatim>\<open>if (data.yield)\<close>): the
  value when the field is present and truthy; an absent field is \<^verbatim>\<open>undefined\<close>,
  which is falsy.
\<close>

fun truthy_field :: "json option \<Rightarrow> json option" where
  "truthy_field None = None"
| "truthy_field (Some v) = (if truthy v then Some v else None)"

text \<open>
  \<^verbatim>\<open>interface RpcMessage { id: number; ready?: true; result?: any; yield?: any; error?: string }\<close>.
  The id is a number, as the interface says. The optional fields hold any decoded value
  (the subprocess sends a list of strings as \<^verbatim>\<open>error\<close>); \<open>None\<close> is an absent
  field.
\<close>

record RpcMessage =
  msg_id :: int
  msg_ready :: "json option"
  msg_result :: "json option"
  msg_yield :: "json option"
  msg_error :: "json option"

text \<open>
  A zod schema, by its \<^verbatim>\<open>parse\<close>: the parsed value, or \<open>None\<close> where
  \<^verbatim>\<open>parse\<close> throws a ZodError.
\<close>

type_synonym ZodSchema = "json \<Rightarrow> json option"

text \<open>The request written to the subprocess: \<^verbatim>\<open>{ id: messageId, method, args }\<close>.\<close>

record CallRequest =
  req_id :: int
  req_method :: string
  req_args :: "json list"

section \<open>The controller\<close>

text \<open>
  What is called on an rxjs \<^verbatim>\<open>Subject\<close>: \<^verbatim>\<open>next(v)\<close>, \<^verbatim>\<open>error(new Error(e))\<close>
  (the error is kept by the value \<open>e\<close> it was built from) and \<^verbatim>\<open>complete()\<close>.
\<close>

datatype notification = Next json | Failed json | Complete

text \<open>
  The callback stored in \<^verbatim>\<open>subscribers\<close> is a closure over \<^verbatim>\<open>messageId\<close>,
  \<^verbatim>\<open>schema\<close> and \<^verbatim>\<open>subject\<close>. The subject made by the call with id \<open>i\<close> is the
  entry \<open>i\<close> of \<open>subjects\<close>.
\<close>

record Subscriber =
  sub_messageId :: int
  sub_schema :: ZodSchema

text \<open>
  The fields of \<^verbatim>\<open>class Controller\<close> and the variables its constructor closes over:
  \<^item> \<open>messageId\<close>, \<open>subscribers\<close>: the fields of the class;
  \<^item> \<open>buffer\<close>: the \<^verbatim>\<open>Buffer[]\<close> of the reader, one string of bytes per chunk;
  \<^item> \<open>stdin\<close>: the requests written to \<^verbatim>\<open>process.stdin\<close>, oldest first;
  \<^item> \<open>subjects\<close>: for every subject, the calls made on it, oldest first;
  \<^item> \<open>decoded\<close>: every message \<^verbatim>\<open>JSON.parse\<close> returned, in the order processed;
  \<^item> \<open>received\<close>: for every callback, the messages it was called with, oldest first;
  \<^item> \<open>dropped\<close>: the decoded messages that found no callback under their id;
  \<^item> \<open>warnings\<close>: the lines given to \<^verbatim>\<open>console.warn\<close>.
  The last four record what the code does and are read by no branch of it.
\<close>

record Controller =
  messageId :: int
  subscribers :: "int \<rightharpoonup> Subscriber"
  buffer :: "string list"
  stdin :: "CallRequest list"
  subjects :: "int \<Rightarrow> notification list"
  decoded :: "RpcMessage list"
  received :: "int \<Rightarrow> RpcMessage list"
  dropped :: "RpcMessage list"
  warnings :: "string list"

definition new_Controller :: Controller where
  "new_Controller =
     \<lparr>messageId = 0, subscribers = Map.empty, buffer = [], stdin = [],
      subjects = (\<lambda>i. []), decoded = [], received = (\<lambda>i. []), dropped = [],
      warnings = []\<rparr>"

definition subject_call :: "int \<Rightarrow> notification \<Rightarrow> Controller \<Rightarrow> Controller" where
  "subject_call i n c = c\<lparr>subjects := (subjects c)(i := subjects c i @ [n])\<rparr>"

definition delete_subscriber :: "int \<Rightarrow> Controller \<Rightarrow> Controller" where
  "delete_subscriber i c = c\<lparr>subscribers := (subscribers c)(i := None)\<rparr>"

text \<open>
  The callback of \<^verbatim>\<open>send\<close> (lines 149 to 163). The conditions test truthiness, in
  the order \<^verbatim>\<open>ready\<close>, \<^verbatim>\<open>yield\<close>, \<^verbatim>\<open>error\<close>. A ZodError thrown by
  \<^verbatim>\<open>schema.parse\<close> is caught by the empty \<^verbatim>\<open>catch {}\<close>: nothing is called on the
  subject and the callback stays registered.
\<close>

definition subscriber :: "Subscriber \<Rightarrow> RpcMessage \<Rightarrow> Controller \<Rightarrow> Controller" where
  "subscriber s data c =
     (let i = sub_messageId s in
      if truthy_field (msg_ready data) \<noteq> None then c
      else case truthy_field (msg_yield data) of
        Some y \<Rightarrow>
          (case sub_schema s y of
             None \<Rightarrow> c
           | Some v \<Rightarrow> subject_call i (Next v) c)
      | None \<Rightarrow>
          (case truthy_field (msg_error data) of
             Some e \<Rightarrow> subject_call i (Failed e) (delete_subscriber i c)
           | None \<Rightarrow> subject_call i Complete (delete_subscriber i c)))"

text \<open>
  \<^verbatim>\<open>send\<close>: take the id, make the subject, register the callback, write the request.
  The result is the id, which names the subject returned.
\<close>

definition send :: "string \<Rightarrow> json list \<Rightarrow> ZodSchema \<Rightarrow> Controller \<Rightarrow> int \<times> Controller" where
  "send method args schema c =
     (let i = messageId c in
      (i, c\<lparr>messageId := i + 1,
            subscribers := (subscribers c)(i \<mapsto> \<lparr>sub_messageId = i, sub_schema = schema\<rparr>),
            subjects := (subjects c)(i := []),
            received := (received c)(i := []),
            stdin := stdin c @ [\<lparr>req_id = i, req_method = method, req_args = args\<rparr>]\<rparr>))"

text \<open>
  Lines 129 to 132: look the callback up by \<^verbatim>\<open>res.id\<close> and call it with the message;
  a message with no callback registered under its id is dropped.
\<close>

definition dispatch :: "RpcMessage \<Rightarrow> Controller \<Rightarrow> Controller" where
  "dispatch res c =
     (let c1 = c\<lparr>decoded := decoded c @ [res]\<rparr> in
      case subscribers c1 (msg_id res) of
        None \<Rightarrow> c1\<lparr>dropped := dropped c1 @ [res]\<rparr>
      | Some s \<Rightarrow>
          subscriber s res
            (c1\<lparr>received :=
                  (received c1)(sub_messageId s := received c1 (sub_messageId s) @ [res])\<rparr>))"

section \<open>Framing\<close>

text \<open>
  The bytes of the output stream are \<open>char\<close>s. The subprocess prints the output of
  \<^verbatim>\<open>json.dumps\<close> only, which is ASCII, and \<^verbatim>\<open>toString("utf8")\<close> is the identity on
  ASCII; \<^verbatim>\<open>trim\<close> removes the ASCII white space and line terminators at both ends.
\<close>

definition newline :: char where
  "newline = CHR 0x0A"

definition is_space :: "char \<Rightarrow> bool" where
  "is_space ch = (ch \<in> {CHR 0x09, CHR 0x0A, CHR 0x0B, CHR 0x0C, CHR 0x0D, CHR 0x20})"

definition trim :: "string \<Rightarrow> string" where
  "trim s = rev (dropWhile is_space (rev (dropWhile is_space s)))"

text \<open>\<^verbatim>\<open>split("\n")\<close>: the pieces between newlines; the empty string gives one empty piece.\<close>

fun split_newline :: "string \<Rightarrow> string list" where
  "split_newline [] = [[]]"
| "split_newline (ch # s) =
     (if ch = newline then [] # split_newline s
      else (case split_newline s of
              [] \<Rightarrow> [[ch]]
            | piece # pieces \<Rightarrow> (ch # piece) # pieces))"

definition warn :: "string \<Rightarrow> Controller \<Rightarrow> Controller" where
  "warn message c = c\<lparr>warnings := warnings c @ [''Could not parse: '' @ message]\<rparr>"

text \<open>
  The body of the loop over the messages (lines 126 to 135). \<open>parse\<close> is
  \<^verbatim>\<open>JSON.parse\<close> read at the type \<^verbatim>\<open>RpcMessage\<close>, \<open>None\<close> where it throws.
\<close>

definition process_message ::
  "(string \<Rightarrow> RpcMessage option) \<Rightarrow> string \<Rightarrow> Controller \<Rightarrow> Controller" where
  \<open>process_message parse message c =
     (if take 2 message \<noteq> ''{"'' then c
      else case parse message of
        None \<Rightarrow> warn message c
      | Some res \<Rightarrow> dispatch res c)\<close>

text \<open>
  \<^verbatim>\<open>read\<close> (lines 117 to 139): push the chunk; when the chunk holds a newline, decode
  everything buffered, process each piece, and empty the buffer.
\<close>

definition read :: "(string \<Rightarrow> RpcMessage option) \<Rightarrow> string \<Rightarrow> Controller \<Rightarrow> Controller" where
  "read parse data c =
     (let c1 = c\<lparr>buffer := buffer c @ [data]\<rparr> in
      if newline \<in> set data then
        (fold (process_message parse) (split_newline (trim (concat (buffer c1)))) c1)
          \<lparr>buffer := []\<rparr>
      else c1)"

section \<open>Sessions as traces\<close>

text \<open>
  What happens to a controller, one event at a time: a call of \<^verbatim>\<open>send\<close>, a decoded
  line reaching the lookup of line 130, or a chunk arriving on the output stream.
\<close>

datatype event = Call string "json list" ZodSchema | Decoded RpcMessage | Data string

fun step :: "(string \<Rightarrow> RpcMessage option) \<Rightarrow> event \<Rightarrow> Controller \<Rightarrow> Controller" where
  "step parse (Call method args schema) c = snd (send method args schema c)"
| "step parse (Decoded res) c = dispatch res c"
| "step parse (Data chunk) c = read parse chunk c"

definition run :: "(string \<Rightarrow> RpcMessage option) \<Rightarrow> event list \<Rightarrow> Controller \<Rightarrow> Controller" where
  "run parse evs c = fold (step parse) evs c"

text \<open>The ids that the calls of a trace are given, in the order of the calls.\<close>

fun assigned :: "(string \<Rightarrow> RpcMessage option) \<Rightarrow> event list \<Rightarrow> Controller \<Rightarrow> int list" where
  "assigned parse [] c = []"
| "assigned parse (Call method args schema # evs) c =
     fst (send method args schema c) # assigned parse evs (snd (send method args schema c))"
| "assigned parse (Decoded res # evs) c = assigned parse evs (dispatch res c)"
| "assigned parse (Data chunk # evs) c = assigned parse evs (read parse chunk c)"

fun is_Call :: "event \<Rightarrow> bool" where
  "is_Call (Call method args schema) = True"
| "is_Call (Decoded res) = False"
| "is_Call (Data chunk) = False"

text \<open>
  Every registered callback sits under the id it closed over, and that id was handed
  out already.
\<close>

definition sinks_keyed :: "Controller \<Rightarrow> bool" where
  "sinks_keyed c =
     (\<forall>k s. subscribers c k = Some s \<longrightarrow> sub_messageId s = k \<and> k < messageId c)"

section \<open>The promise of a subject\<close>

text \<open>
  rxjs \<^verbatim>\<open>toPromise()\<close>, subscribed when the subject is made: it resolves at
  \<^verbatim>\<open>complete\<close> with the last value given to \<^verbatim>\<open>next\<close> (\<open>None\<close> is
  \<^verbatim>\<open>undefined\<close>, when there was none) and rejects at \<^verbatim>\<open>error\<close>.
\<close>

datatype promise = Pending | Resolved "json option" | Rejected json

fun toPromise_from :: "json option \<Rightarrow> notification list \<Rightarrow> promise" where
  "toPromise_from last_value [] = Pending"
| "toPromise_from last_value (Next v # ns) = toPromise_from (Some v) ns"
| "toPromise_from last_value (Failed e # ns) = Rejected e"
| "toPromise_from last_value (Complete # ns) = Resolved last_value"

definition toPromise :: "notification list \<Rightarrow> promise" where
  "toPromise ns = toPromise_from None ns"

section \<open>The subprocess\<close>

text \<open>
  What \<^verbatim>\<open>getattr(module, p['method'])(*p['args'])\<close> and the iteration over a
  generator do: the call raises (with the lines of
  \<^verbatim>\<open>traceback.format_exception\<close>), it returns a value that is not a generator, or it
  returns a generator that produces items and then ends or raises. Values are the ones
  \<^verbatim>\<open>json.dumps\<close> prints.
\<close>

datatype outcome =
    Raises "string list"
  | Returns json
  | Generates "json list" "string list option"

definition yield_message :: "int \<Rightarrow> json \<Rightarrow> RpcMessage" where
  "yield_message i v =
     \<lparr>msg_id = i, msg_ready = None, msg_result = None, msg_yield = Some v, msg_error = None\<rparr>"

definition completion_message :: "int \<Rightarrow> RpcMessage" where
  "completion_message i =
     \<lparr>msg_id = i, msg_ready = None, msg_result = None, msg_yield = None, msg_error = None\<rparr>"

definition error_message :: "int \<Rightarrow> string list \<Rightarrow> RpcMessage" where
  "error_message i trace =
     \<lparr>msg_id = i, msg_ready = None, msg_result = None, msg_yield = None,
      msg_error = Some (JArray (map JString trace))\<rparr>"

text \<open>
  The body of the loop of the hook for one request (lines 48 to 61): the messages printed
  to the output stream, as the host decodes them.
\<close>

fun hook :: "CallRequest \<Rightarrow> outcome \<Rightarrow> RpcMessage list" where
  "hook p (Returns v) = [yield_message (req_id p) v, completion_message (req_id p)]"
| "hook p (Generates items None) =
     map (yield_message (req_id p)) items @ [completion_message (req_id p)]"
| "hook p (Generates items (Some trace)) =
     map (yield_message (req_id p)) items @ [error_message (req_id p) trace]"
| "hook p (Raises trace) = [error_message (req_id p) trace]"

section \<open>The bridge\<close>

text \<open>
  A zod function schema: \<^verbatim>\<open>returnType()\<close>, and whether the inferred return type is a
  \<^verbatim>\<open>Subject\<close>, which is what the type \<^verbatim>\<open>PromisifyFn\<close> asks. The shape of the
  object schema maps the declared method names to their function schemas.
\<close>

record ZodFunction =
  returnType :: ZodSchema
  returns_Subject :: bool

type_synonym ZodObject = "string \<rightharpoonup> ZodFunction"

text \<open>
  The proxy closes over the controller, an object of the heap named here by its address,
  and over the schema.
\<close>

record Proxy =
  proxy_controller :: nat
  proxy_schema :: ZodObject

record PyBridge =
  controllers :: "string \<rightharpoonup> Proxy"
  heap :: "nat \<Rightarrow> Controller"
  allocated :: nat

definition new_PyBridge :: PyBridge where
  "new_PyBridge = \<lparr>controllers = Map.empty, heap = (\<lambda>a. new_Controller), allocated = 0\<rparr>"

text \<open>
  \<^verbatim>\<open>controllers\<close> is a plain object: reading a name that it does not own finds the
  member of \<^verbatim>\<open>Object.prototype\<close> of that name, which is truthy.
\<close>

definition Object_prototype :: "string list" where
  "Object_prototype =
     [''constructor'', ''__defineGetter__'', ''__defineSetter__'', ''hasOwnProperty'',
      ''__lookupGetter__'', ''__lookupSetter__'', ''isPrototypeOf'', ''propertyIsEnumerable'',
      ''toString'', ''valueOf'', ''__proto__'', ''toLocaleString'']"

datatype facade = Facade Proxy | Inherited string

text \<open>\<^verbatim>\<open>PyBridge.controller\<close> (lines 199 to 218).\<close>

definition controller :: "string \<Rightarrow> ZodObject \<Rightarrow> PyBridge \<Rightarrow> facade \<times> PyBridge" where
  "controller moduleName schema b =
     (case controllers b moduleName of
        Some p \<Rightarrow> (Facade p, b)
      | None \<Rightarrow>
          if moduleName \<in> set Object_prototype then (Inherited moduleName, b)
          else
            (let a = allocated b;
                 p = \<lparr>proxy_controller = a, proxy_schema = schema\<rparr>
             in (Facade p,
                 b\<lparr>controllers := (controllers b)(moduleName \<mapsto> p),
                   heap := (heap b)(a := new_Controller),
                   allocated := a + 1\<rparr>)))"

text \<open>
  What the function returned by the proxy's \<^verbatim>\<open>get\<close> hands back: the code has
  \<^verbatim>\<open>subject.toPromise()\<close> only; \<open>TheSubject\<close> is the other value that the type
  \<^verbatim>\<open>PromisifyFn\<close> names. Both carry the address of the controller and the id of the
  subject.
\<close>

datatype returned = ThePromise nat int | TheSubject nat int

datatype js_error = TypeError

text \<open>
  Reading a member of the proxy and calling it (lines 207 to 215). The name
  \<^verbatim>\<open>process\<close> reads the child process, which is not a function; a name that the
  shape does not declare makes \<^verbatim>\<open>schema.shape[name].returnType()\<close> throw, before
  \<^verbatim>\<open>send\<close> is reached.
\<close>

definition proxy_call ::
  "Proxy \<Rightarrow> string \<Rightarrow> json list \<Rightarrow> PyBridge \<Rightarrow> js_error + (returned \<times> PyBridge)" where
  "proxy_call p name args b =
     (if name = ''process'' then Inl TypeError
      else case proxy_schema p name of
        None \<Rightarrow> Inl TypeError
      | Some fn \<Rightarrow>
          (let a = proxy_controller p;
               (i, c) = send name args (returnType fn) (heap b a)
           in Inr (ThePromise a i, b\<lparr>heap := (heap b)(a := c)\<rparr>)))"

text \<open>What the type \<^verbatim>\<open>PromisifyFn\<close> declares for a method of the contract.\<close>

definition PromisifyFn :: "ZodFunction \<Rightarrow> nat \<Rightarrow> int \<Rightarrow> returned" where
  "PromisifyFn fn a i = (if returns_Subject fn then TheSubject a i else ThePromise a i)"

section \<open>Invariants of the registry\<close>

text \<open>A callback is called only with messages that carry the id it closed over.\<close>

definition own_only :: "Controller \<Rightarrow> bool" where
  "own_only c = (\<forall>i. \<forall>res\<in>set (received c i). msg_id res = i)"

text \<open>
  As long as no decoded message was dropped, every callback has seen the decoded messages
  of its id, in their order, and every decoded id was handed out before.
\<close>

definition in_order :: "Controller \<Rightarrow> bool" where
  "in_order c =
     (dropped c = [] \<longrightarrow>
        (\<forall>i. received c i = filter (\<lambda>res. msg_id res = i) (decoded c))
        \<and> (\<forall>res\<in>set (decoded c). msg_id res < messageId c))"

definition registry_ok :: "Controller \<Rightarrow> bool" where
  "registry_ok c = (sinks_keyed c \<and> own_only c \<and> in_order c)"

section \<open>Sample inputs\<close>

text \<open>A schema that accepts every value (\<^verbatim>\<open>z.any()\<close>) and one that accepts none (\<^verbatim>\<open>z.never()\<close>).\<close>

definition accept_all :: ZodSchema where
  "accept_all v = Some v"

definition reject_all :: ZodSchema where
  "reject_all v = None"

text \<open>A decoder that fails on every text.\<close>

definition parse_nothing :: "string \<Rightarrow> RpcMessage option" where
  "parse_nothing s = None"

text \<open>Two calls, then lines for both ids interleaved.\<close>

definition interleaved :: "event list" where
  "interleaved =
     [Call ''f'' [] accept_all, Call ''g'' [] accept_all,
      Decoded (yield_message 1 (JNumber 7)), Decoded (yield_message 0 (JNumber 5)),
      Decoded (yield_message 1 (JNumber 8)), Decoded (completion_message 0)]"

text \<open>
  One call of a method that returns \<^verbatim>\<open>None\<close>, and the two lines the hook prints for
  it: the Yield with \<^verbatim>\<open>null\<close> and the Completion.
\<close>

definition falsy_answer :: "event list" where
  "falsy_answer =
     [Call ''f'' [] accept_all,
      Decoded (yield_message 0 JNull), Decoded (completion_message 0)]"

text \<open>
  One call served alone: \<^verbatim>\<open>send\<close> writes the request, the subprocess runs the
  method with the given outcome, and the host processes every message the hook printed
  for it, in order.
\<close>

definition round_trip ::
  "string \<Rightarrow> json list \<Rightarrow> ZodSchema \<Rightarrow> outcome \<Rightarrow> Controller \<Rightarrow> int \<times> Controller" where
  "round_trip name args schema out c =
     (let (i, c1) = send name args schema c
      in (i, fold dispatch (hook \<lparr>req_id = i, req_method = name, req_args = args\<rparr> out) c1))"

text \<open>A controller after one call, and after two.\<close>

definition one_call :: Controller where
  "one_call = snd (send ''f'' [] accept_all new_Controller)"

definition two_calls :: Controller where
  "two_calls = snd (send ''g'' [] accept_all one_call)"

text \<open>The line \<^verbatim>\<open>{"id":1,"yield":1}\<close> and the same with its newline.\<close>

definition yield_text :: string where
  \<open>yield_text = ''{"id":1,"yield":1}''\<close>

definition yield_line :: string where
  "yield_line = yield_text @ [newline]"

text \<open>
  \<^verbatim>\<open>JSON.parse\<close> on the texts of the examples: the line of C4, and two lines as
  \<^verbatim>\<open>json.dumps\<close> prints them; it throws on every fragment of them.
\<close>

definition parse_sample :: "string \<Rightarrow> RpcMessage option" where
  \<open>parse_sample s =
     (if s = ''{"id":1,"yield":1}'' then Some (yield_message 1 (JNumber 1))
      else if s = ''{"id": 0, "yield": 1}'' then Some (yield_message 0 (JNumber 1))
      else if s = ''{"id": 0, "yield": 2}'' then Some (yield_message 0 (JNumber 2))
      else None)\<close>

text \<open>
  The output of a generator that produces 1 and 2 for the call 0, each message printed
  with the two newlines of the hook, arriving in two chunks with the boundary inside the
  second message: \<^verbatim>\<open>{"id": 0, "yield": 1}\n\n{"id": 0, "yi\<close> and then
  \<^verbatim>\<open>eld": 2}\n\n\<close>.
\<close>

definition first_chunk :: string where
  \<open>first_chunk = ''{"id": 0, "yield": 1}'' @ [newline, newline] @ ''{"id": 0, "yi''\<close>

definition second_chunk :: string where
  \<open>second_chunk = ''eld": 2}'' @ [newline, newline]\<close>

text \<open>Function schemas and contracts.\<close>

definition stream_fn :: ZodFunction where
  "stream_fn = \<lparr>returnType = accept_all, returns_Subject = True\<rparr>"

definition value_fn :: ZodFunction where
  "value_fn = \<lparr>returnType = accept_all, returns_Subject = False\<rparr>"

definition strict_fn :: ZodFunction where
  "strict_fn = \<lparr>returnType = reject_all, returns_Subject = False\<rparr>"

definition stream_contract :: ZodObject where
  "stream_contract = [''stream'' \<mapsto> stream_fn]"

definition first_contract :: ZodObject where
  "first_contract = [''f'' \<mapsto> value_fn]"

definition second_contract :: ZodObject where
  "second_contract = [''f'' \<mapsto> strict_fn, ''g'' \<mapsto> value_fn]"

section \<open>Properties of the registry\<close>

lemma subscriber_messageId [simp]: "messageId (subscriber s data c) = messageId c"
  by (simp add: subscriber_def Let_def subject_call_def delete_subscriber_def split: option.splits)

lemma subscriber_buffer [simp]: "buffer (subscriber s data c) = buffer c"
  by (simp add: subscriber_def Let_def subject_call_def delete_subscriber_def split: option.splits)

lemma subscriber_stdin [simp]: "stdin (subscriber s data c) = stdin c"
  by (simp add: subscriber_def Let_def subject_call_def delete_subscriber_def split: option.splits)

lemma subscriber_subscribers:
  "subscribers (subscriber s data c) k = Some s' \<Longrightarrow> subscribers c k = Some s'"
  by (auto simp add: subscriber_def Let_def subject_call_def delete_subscriber_def split: option.splits if_splits)

lemma dispatch_messageId [simp]: "messageId (dispatch res c) = messageId c"
  by (simp add: dispatch_def Let_def split: option.splits)

lemma dispatch_buffer [simp]: "buffer (dispatch res c) = buffer c"
  by (simp add: dispatch_def Let_def split: option.splits)

lemma dispatch_stdin [simp]: "stdin (dispatch res c) = stdin c"
  by (simp add: dispatch_def Let_def split: option.splits)

lemma dispatch_subscribers:
  "subscribers (dispatch res c) k = Some s' \<Longrightarrow> subscribers c k = Some s'"
  by (auto simp add: dispatch_def Let_def split: option.splits dest: subscriber_subscribers)

lemma process_message_messageId [simp]: "messageId (process_message parse m c) = messageId c"
  by (simp add: process_message_def warn_def split: option.splits)

lemma process_message_buffer [simp]: "buffer (process_message parse m c) = buffer c"
  by (simp add: process_message_def warn_def split: option.splits)

lemma process_message_stdin [simp]: "stdin (process_message parse m c) = stdin c"
  by (simp add: process_message_def warn_def split: option.splits)

lemma process_message_subscribers:
  "subscribers (process_message parse m c) k = Some s' \<Longrightarrow> subscribers c k = Some s'"
  by (auto simp add: process_message_def warn_def split: option.splits if_splits dest: dispatch_subscribers)

lemma fold_process_messageId [simp]:
  "messageId (fold (process_message parse) ms c) = messageId c"
  by (induction ms arbitrary: c) simp_all

lemma fold_process_buffer [simp]:
  "buffer (fold (process_message parse) ms c) = buffer c"
  by (induction ms arbitrary: c) simp_all

lemma fold_process_stdin [simp]:
  "stdin (fold (process_message parse) ms c) = stdin c"
  by (induction ms arbitrary: c) simp_all

lemma fold_process_subscribers:
  "subscribers (fold (process_message parse) ms c) k = Some s' \<Longrightarrow> subscribers c k = Some s'"
  by (induction ms arbitrary: c) (auto dest: process_message_subscribers)

lemma read_messageId [simp]: "messageId (read parse chunk c) = messageId c"
  by (simp add: read_def Let_def)

lemma read_stdin [simp]: "stdin (read parse chunk c) = stdin c"
  by (simp add: read_def Let_def)

lemma read_subscribers:
  "subscribers (read parse chunk c) k = Some s' \<Longrightarrow> subscribers c k = Some s'"
  by (auto simp add: read_def Let_def split: if_splits dest: fold_process_subscribers)

lemma sinks_keyed_send: "sinks_keyed c \<Longrightarrow> sinks_keyed (snd (send method args schema c))"
  by (fastforce simp add: sinks_keyed_def send_def Let_def split: if_splits)

lemma sinks_keyed_step: "sinks_keyed c \<Longrightarrow> sinks_keyed (step parse ev c)"
proof (cases ev)
  case (Call name args schema)
  assume "sinks_keyed c"
  then show ?thesis using Call by (simp add: sinks_keyed_send)
next
  case (Decoded res)
  assume "sinks_keyed c"
  then show ?thesis using Decoded
    unfolding sinks_keyed_def by (auto dest!: dispatch_subscribers)
next
  case (Data chunk)
  assume "sinks_keyed c"
  then show ?thesis using Data
    unfolding sinks_keyed_def by (auto dest!: read_subscribers)
qed

lemma sinks_keyed_run: "sinks_keyed c \<Longrightarrow> sinks_keyed (run parse evs c)"
  unfolding run_def by (induction evs arbitrary: c) (simp_all add: sinks_keyed_step)

lemma sinks_keyed_new: "sinks_keyed new_Controller"
  by (simp add: sinks_keyed_def new_Controller_def)

lemma assigned_from:
  "assigned parse evs c = map (\<lambda>j. messageId c + int j) [0..<length (filter is_Call evs)]"
proof (induction evs arbitrary: c)
  case Nil
  then show ?case by simp
next
  case (Cons ev evs)
  show ?case
  proof (cases ev)
    case (Call name args schema)
    have "map (\<lambda>j. messageId c + int j) [0..<Suc (length (filter is_Call evs))]
        = messageId c # map (\<lambda>j. messageId c + 1 + int j) [0..<length (filter is_Call evs)]"
      by (simp add: upt_conv_Cons map_Suc_upt [symmetric] del: upt_Suc)
    then show ?thesis using Call Cons.IH [of "snd (send name args schema c)"]
      by (simp add: send_def Let_def)
  next
    case (Decoded res)
    then show ?thesis using Cons.IH [of "dispatch res c"] by simp
  next
    case (Data chunk)
    then show ?thesis using Cons.IH [of "read parse chunk c"] by simp
  qed
qed

lemma own_onlyD: "own_only c \<Longrightarrow> x \<in> set (received c i) \<Longrightarrow> msg_id x = i"
  unfolding own_only_def by blast

lemma in_order_received:
  "in_order c \<Longrightarrow> dropped c = [] \<Longrightarrow> received c i = filter (\<lambda>res. msg_id res = i) (decoded c)"
  unfolding in_order_def by blast

lemma in_order_bound:
  "in_order c \<Longrightarrow> dropped c = [] \<Longrightarrow> x \<in> set (decoded c) \<Longrightarrow> msg_id x < messageId c"
  unfolding in_order_def by blast

lemma subscriber_logs [simp]:
  "decoded (subscriber s data c) = decoded c"
  "received (subscriber s data c) = received c"
  "dropped (subscriber s data c) = dropped c"
  "warnings (subscriber s data c) = warnings c"
  by (simp_all add: subscriber_def Let_def subject_call_def delete_subscriber_def split: option.splits)

lemma dispatch_decoded [simp]: "decoded (dispatch res c) = decoded c @ [res]"
  by (simp add: dispatch_def Let_def split: option.splits)

lemma dispatch_unregistered:
  "subscribers c (msg_id res) = None \<Longrightarrow>
     dropped (dispatch res c) = dropped c @ [res] \<and> received (dispatch res c) = received c"
  by (simp add: dispatch_def Let_def)

lemma dispatch_registered:
  "subscribers c (msg_id res) = Some s \<Longrightarrow>
     dropped (dispatch res c) = dropped c
     \<and> received (dispatch res c) =
         (received c)(sub_messageId s := received c (sub_messageId s) @ [res])"
  by (simp add: dispatch_def Let_def)

lemma sinks_keyed_dispatch: "sinks_keyed c \<Longrightarrow> sinks_keyed (dispatch res c)"
  unfolding sinks_keyed_def by (auto dest!: dispatch_subscribers)

lemma own_only_dispatch:
  assumes "sinks_keyed c" and "own_only c"
  shows "own_only (dispatch res c)"
proof (cases "subscribers c (msg_id res)")
  case None
  then show ?thesis using assms(2) dispatch_unregistered [OF None] by (simp add: own_only_def)
next
  case (Some s)
  have k: "sub_messageId s = msg_id res"
    using assms(1) Some unfolding sinks_keyed_def by blast
  have r: "received (dispatch res c) = (received c)(msg_id res := received c (msg_id res) @ [res])"
    using dispatch_registered [OF Some] k by simp
  show ?thesis
    unfolding own_only_def
  proof (intro allI ballI)
    fix i x
    assume "x \<in> set (received (dispatch res c) i)"
    then have "x \<in> set (received c i) \<or> (i = msg_id res \<and> x = res)"
      unfolding r by (auto split: if_splits)
    then show "msg_id x = i" using own_onlyD [OF assms(2)] by metis
  qed
qed

lemma in_order_dispatch:
  assumes "sinks_keyed c" and "in_order c"
  shows "in_order (dispatch res c)"
proof (cases "subscribers c (msg_id res)")
  case None
  have "dropped (dispatch res c) \<noteq> []"
    using dispatch_unregistered [OF None] by simp
  then show ?thesis by (simp add: in_order_def)
next
  case (Some s)
  have k: "sub_messageId s = msg_id res" "msg_id res < messageId c"
    using assms(1) Some unfolding sinks_keyed_def by blast+
  have d: "dropped (dispatch res c) = dropped c"
    using dispatch_registered [OF Some] by simp
  have r: "received (dispatch res c) = (received c)(msg_id res := received c (msg_id res) @ [res])"
    using dispatch_registered [OF Some] k by simp
  show ?thesis
    unfolding in_order_def d
  proof (intro impI conjI allI ballI)
    fix i
    assume e: "dropped c = []"
    show "received (dispatch res c) i = filter (\<lambda>x. msg_id x = i) (decoded (dispatch res c))"
      unfolding r by (simp add: in_order_received [OF assms(2) e])
  next
    fix x
    assume e: "dropped c = []" and "x \<in> set (decoded (dispatch res c))"
    then have "x \<in> set (decoded c) \<or> x = res" by auto
    then show "msg_id x < messageId (dispatch res c)"
      using in_order_bound [OF assms(2) e] k(2) by auto
  qed
qed

lemma registry_ok_dispatch: "registry_ok c \<Longrightarrow> registry_ok (dispatch res c)"
  by (simp add: registry_ok_def sinks_keyed_dispatch own_only_dispatch in_order_dispatch)

lemma send_logs:
  "decoded (snd (send method args schema c)) = decoded c"
  "dropped (snd (send method args schema c)) = dropped c"
  "received (snd (send method args schema c)) = (received c)(messageId c := [])"
  "messageId (snd (send method args schema c)) = messageId c + 1"
  by (simp_all add: send_def Let_def)

lemma own_only_send: "own_only c \<Longrightarrow> own_only (snd (send method args schema c))"
  unfolding own_only_def send_logs by (auto split: if_splits)

lemma in_order_send:
  assumes "in_order c"
  shows "in_order (snd (send method args schema c))"
  unfolding in_order_def send_logs
proof (intro impI conjI allI ballI)
  fix i
  assume e: "dropped c = []"
  have "\<forall>x\<in>set (decoded c). msg_id x \<noteq> messageId c"
    using in_order_bound [OF assms e] by force
  then have "filter (\<lambda>x. msg_id x = messageId c) (decoded c) = []"
    unfolding filter_empty_conv by blast
  then show "((received c)(messageId c := [])) i = filter (\<lambda>x. msg_id x = i) (decoded c)"
    by (simp add: in_order_received [OF assms e])
next
  fix x
  assume e: "dropped c = []" and "x \<in> set (decoded c)"
  then show "msg_id x < messageId c + 1"
    using in_order_bound [OF assms e] by force
qed

lemma registry_ok_send: "registry_ok c \<Longrightarrow> registry_ok (snd (send method args schema c))"
  by (simp add: registry_ok_def sinks_keyed_send own_only_send in_order_send)

lemma registry_ok_warn: "registry_ok (warn m c) = registry_ok c"
  by (simp add: registry_ok_def warn_def sinks_keyed_def own_only_def in_order_def)

lemma registry_ok_process_message:
  "registry_ok c \<Longrightarrow> registry_ok (process_message parse m c)"
  by (simp add: process_message_def registry_ok_warn registry_ok_dispatch split: option.splits)

lemma registry_ok_fold:
  "registry_ok c \<Longrightarrow> registry_ok (fold (process_message parse) ms c)"
  by (induction ms arbitrary: c) (simp_all add: registry_ok_process_message)

lemma registry_ok_buffer: "registry_ok (c\<lparr>buffer := b\<rparr>) = registry_ok c"
  by (simp add: registry_ok_def sinks_keyed_def own_only_def in_order_def)

lemma registry_ok_read: "registry_ok c \<Longrightarrow> registry_ok (read parse chunk c)"
  by (simp add: read_def Let_def registry_ok_buffer registry_ok_fold)

lemma registry_ok_step: "registry_ok c \<Longrightarrow> registry_ok (step parse ev c)"
  by (cases ev) (simp_all add: registry_ok_send registry_ok_dispatch registry_ok_read)

lemma registry_ok_run: "registry_ok c \<Longrightarrow> registry_ok (run parse evs c)"
  unfolding run_def by (induction evs arbitrary: c) (simp_all add: registry_ok_step)

lemma registry_ok_new: "registry_ok new_Controller"
  by (simp add: registry_ok_def sinks_keyed_def own_only_def in_order_def new_Controller_def)

lemma send_state:
  "fst (send method args schema c) = messageId c"
  "snd (send method args schema c) =
     c\<lparr>messageId := messageId c + 1,
       subscribers := (subscribers c)(messageId c \<mapsto> \<lparr>sub_messageId = messageId c, sub_schema = schema\<rparr>),
       subjects := (subjects c)(messageId c := []),
       received := (received c)(messageId c := []),
       stdin := stdin c @ [\<lparr>req_id = messageId c, req_method = method, req_args = args\<rparr>]\<rparr>"
  by (simp_all add: send_def Let_def)

lemma dispatch_dropped_state:
  "subscribers c (msg_id res) = None \<Longrightarrow>
     dispatch res c = c\<lparr>decoded := decoded c @ [res], dropped := dropped c @ [res]\<rparr>"
  by (simp add: dispatch_def Let_def)

lemma dispatch_called_state:
  "subscribers c (msg_id res) = Some s \<Longrightarrow>
     dispatch res c =
       subscriber s res
         (c\<lparr>decoded := decoded c @ [res],
            received := (received c)(sub_messageId s := received c (sub_messageId s) @ [res])\<rparr>)"
  by (simp add: dispatch_def Let_def)

lemma subscriber_yield:
  "truthy v \<Longrightarrow> sub_schema s v = Some w \<Longrightarrow>
     subscriber s (yield_message i v) c
       = c\<lparr>subjects := (subjects c)(sub_messageId s := subjects c (sub_messageId s) @ [Next w])\<rparr>"
  by (simp add: subscriber_def Let_def yield_message_def subject_call_def)

lemma subscriber_yield_invalid:
  "truthy v \<Longrightarrow> sub_schema s v = None \<Longrightarrow> subscriber s (yield_message i v) c = c"
  by (simp add: subscriber_def Let_def yield_message_def)

lemma subscriber_yield_falsy:
  "\<not> truthy v \<Longrightarrow>
     subscriber s (yield_message i v) c
       = c\<lparr>subscribers := (subscribers c)(sub_messageId s := None),
            subjects := (subjects c)(sub_messageId s := subjects c (sub_messageId s) @ [Complete])\<rparr>"
  by (simp add: subscriber_def Let_def yield_message_def subject_call_def delete_subscriber_def)

lemma subscriber_completion:
  "subscriber s (completion_message i) c
       = c\<lparr>subscribers := (subscribers c)(sub_messageId s := None),
            subjects := (subjects c)(sub_messageId s := subjects c (sub_messageId s) @ [Complete])\<rparr>"
  by (simp add: subscriber_def Let_def completion_message_def subject_call_def delete_subscriber_def)

lemma subscriber_error:
  "subscriber s (error_message i trace) c
       = c\<lparr>subscribers := (subscribers c)(sub_messageId s := None),
            subjects := (subjects c)(sub_messageId s :=
              subjects c (sub_messageId s) @ [Failed (JArray (map JString trace))])\<rparr>"
  by (simp add: subscriber_def Let_def error_message_def subject_call_def delete_subscriber_def)

lemma message_ids [simp]:
  "msg_id (yield_message i v) = i"
  "msg_id (completion_message i) = i"
  "msg_id (error_message i trace) = i"
  by (simp_all add: yield_message_def completion_message_def error_message_def)




section \<open>Correlation ids\<close>

text \<open>
  C9. In a session that starts from a new controller, whatever calls, decoded lines and
  chunks come in whatever order, the calls are given the ids 0, 1, 2, ... in the order
  they are made, no id is given twice, the registered callbacks have pairwise different
  ids (at most one pending call per id), and the id that the next call will take has no
  callback registered.
\<close>

theorem ids_assigned:
  "assigned parse evs new_Controller = map int [0..<length (filter is_Call evs)]
   \<and> distinct (assigned parse evs new_Controller)
   \<and> inj_on sub_messageId (ran (subscribers (run parse evs new_Controller)))
   \<and> subscribers (run parse evs new_Controller) (messageId (run parse evs new_Controller)) = None"
proof -
  let ?c = "run parse evs new_Controller"
  have a: "assigned parse evs new_Controller = map int [0..<length (filter is_Call evs)]"
    by (simp add: assigned_from new_Controller_def)
  have d: "distinct (map int [0..<length (filter is_Call evs)])"
    by (simp add: distinct_map inj_on_def)
  have k: "sinks_keyed ?c"
    by (rule sinks_keyed_run [OF sinks_keyed_new])
  have i: "inj_on sub_messageId (ran (subscribers ?c))"
    using k unfolding sinks_keyed_def inj_on_def ran_def by force
  have f: "subscribers ?c (messageId ?c) = None"
    using k unfolding sinks_keyed_def by (cases "subscribers ?c (messageId ?c)") auto
  show ?thesis using a d i f by simp
qed

theorem ids_assigned_witness:
  "assigned parse_nothing interleaved new_Controller = [0, 1]
   \<and> distinct (assigned parse_nothing interleaved new_Controller)"
proof -
  have n: "length (filter is_Call interleaved) = 2"
    by (simp add: interleaved_def)
  show ?thesis
    using ids_assigned [of parse_nothing interleaved] unfolding n
    by (simp add: upt_rec)
qed

section \<open>Dispatch by id\<close>

text \<open>
  In every session a callback is called only with lines that carry its own id; and as long
  as no decoded line went without a callback, every callback has been called with all the
  decoded lines of its id, in their order.
\<close>

lemma no_foreign_events:
  "\<forall>res\<in>set (received (run parse evs new_Controller) i). msg_id res = i"
  using registry_ok_run [OF registry_ok_new, of parse evs]
    own_onlyD [of "run parse evs new_Controller" _ i]
  unfolding registry_ok_def by blast

lemma received_when_none_dropped:
  "dropped (run parse evs new_Controller) = [] \<Longrightarrow>
     received (run parse evs new_Controller) i
       = filter (\<lambda>res. msg_id res = i) (decoded (run parse evs new_Controller))"
  using registry_ok_run [OF registry_ok_new, of parse evs]
    in_order_received [of "run parse evs new_Controller" i]
  unfolding registry_ok_def by blast

text \<open>
  C1, at one call of a method that returns \<^verbatim>\<open>None\<close>. The hook prints the Yield with
  \<^verbatim>\<open>null\<close> and then the Completion, both with the id 0 of the call, which is
  registered and has seen no terminal event. Two lines with the id 0 are decoded; the
  callback of the call is called with the first only. It reads the Yield by the truthiness
  of its value, takes it for a completion, completes the subject and unregisters itself,
  so that the Completion finds no callback and is dropped.
\<close>

theorem completion_missed_after_falsy_yield:
  "hook \<lparr>req_id = 0, req_method = ''f'', req_args = []\<rparr> (Returns JNull)
     = [yield_message 0 JNull, completion_message 0]
   \<and> filter (\<lambda>res. msg_id res = 0) (decoded (run parse_nothing falsy_answer new_Controller))
     = [yield_message 0 JNull, completion_message 0]
   \<and> received (run parse_nothing falsy_answer new_Controller) 0 = [yield_message 0 JNull]
   \<and> dropped (run parse_nothing falsy_answer new_Controller) = [completion_message 0]
   \<and> subjects (run parse_nothing falsy_answer new_Controller) 0 = [Complete]
   \<and> subscribers
         (run parse_nothing [Call ''f'' [] accept_all, Decoded (yield_message 0 JNull)]
            new_Controller) 0
     = None"
  by (simp add: falsy_answer_def run_def send_state dispatch_called_state dispatch_dropped_state
      subscriber_yield_falsy new_Controller_def)

section \<open>One call and its answer\<close>

lemma round_trip_id: "fst (round_trip name args schema out c) = messageId c"
  by (simp add: round_trip_def send_def Let_def)

lemma round_trip_raises:
  "subjects (snd (round_trip name args schema (Raises trace) c)) (messageId c)
     = [Failed (JArray (map JString trace))]"
  by (simp add: round_trip_def split_def send_state dispatch_called_state subscriber_error)

lemma round_trip_returns:
  assumes "truthy v" and "schema v = Some w"
  shows "subjects (snd (round_trip name args schema (Returns v) c)) (messageId c)
           = [Next w, Complete]"
  using assms
  by (simp add: round_trip_def split_def send_state dispatch_called_state subscriber_yield
      subscriber_completion)

lemma round_trip_returns_falsy:
  assumes "\<not> truthy v"
  shows "subjects (snd (round_trip name args schema (Returns v) c)) (messageId c) = [Complete]
       \<and> dropped (snd (round_trip name args schema (Returns v) c))
           = dropped c @ [completion_message (messageId c)]"
  using assms
  by (simp add: round_trip_def split_def send_state dispatch_called_state dispatch_dropped_state
      subscriber_yield_falsy)

lemma round_trip_returns_invalid:
  assumes "truthy v" and "schema v = None"
  shows "subjects (snd (round_trip name args schema (Returns v) c)) (messageId c) = [Complete]"
  using assms
  by (simp add: round_trip_def split_def send_state dispatch_called_state
      subscriber_yield_invalid subscriber_completion)

lemma toPromise_from_values:
  "toPromise_from last_value (map Next vs @ Failed e # ns) = Rejected e"
  by (induction vs arbitrary: last_value) simp_all

lemma dispatch_truthy_yield:
  assumes "subscribers c i = Some s" and "sub_messageId s = i" and "truthy v"
  shows "subscribers (dispatch (yield_message i v) c) = subscribers c
       \<and> (subjects (dispatch (yield_message i v) c) i = subjects c i
            \<or> (\<exists>w. subjects (dispatch (yield_message i v) c) i = subjects c i @ [Next w]))"
proof (cases "sub_schema s v")
  case None
  then show ?thesis
    using assms by (simp add: dispatch_called_state subscriber_yield_invalid)
next
  case (Some w)
  then show ?thesis
    using assms by (simp add: dispatch_called_state subscriber_yield)
qed

lemma fold_truthy_yields:
  assumes "subscribers c i = Some s" and "sub_messageId s = i" and "\<forall>v\<in>set items. truthy v"
  shows "subscribers (fold dispatch (map (yield_message i) items) c) i = Some s
       \<and> (\<exists>vs. subjects (fold dispatch (map (yield_message i) items) c) i
                  = subjects c i @ map Next vs)"
  using assms
proof (induction items arbitrary: c)
  case Nil
  then show ?case by simp
next
  case (Cons v items)
  let ?c = "dispatch (yield_message i v) c"
  have t: "truthy v" using Cons.prems(3) by simp
  have s: "subscribers ?c i = Some s"
    using dispatch_truthy_yield [OF Cons.prems(1,2) t] Cons.prems(1) by simp
  have "subjects ?c i = subjects c i \<or> (\<exists>w. subjects ?c i = subjects c i @ [Next w])"
    using dispatch_truthy_yield [OF Cons.prems(1,2) t] by simp
  then obtain ws where w: "subjects ?c i = subjects c i @ map Next ws"
  proof
    assume "subjects ?c i = subjects c i"
    then have "subjects ?c i = subjects c i @ map Next []" by simp
    then show ?thesis using that by blast
  next
    assume "\<exists>w. subjects ?c i = subjects c i @ [Next w]"
    then obtain w where "subjects ?c i = subjects c i @ map Next [w]" by auto
    then show ?thesis using that by blast
  qed
  have r: "\<forall>v\<in>set items. truthy v" using Cons.prems(3) by simp
  obtain vs where
    "subscribers (fold dispatch (map (yield_message i) items) ?c) i = Some s"
    "subjects (fold dispatch (map (yield_message i) items) ?c) i = subjects ?c i @ map Next vs"
    using Cons.IH [OF s Cons.prems(2) r] by blast
  then have "subscribers (fold dispatch (map (yield_message i) (v # items)) c) i = Some s"
    "subjects (fold dispatch (map (yield_message i) (v # items)) c) i
       = subjects c i @ map Next (ws @ vs)"
    using w by simp_all
  then show ?case by blast
qed

lemma round_trip_generator_raises:
  assumes "\<forall>v\<in>set items. truthy v"
  shows "toPromise (subjects (snd (round_trip name args schema (Generates items (Some trace)) c))
           (messageId c)) = Rejected (JArray (map JString trace))"
proof -
  let ?i = "messageId c"
  let ?s = "\<lparr>sub_messageId = ?i, sub_schema = schema\<rparr>"
  let ?c1 = "snd (send name args schema c)"
  let ?c2 = "fold dispatch (map (yield_message ?i) items) ?c1"
  have a: "subscribers ?c1 ?i = Some ?s" by (simp add: send_state)
  have b: "subjects ?c1 ?i = []" by (simp add: send_state)
  obtain vs where s: "subscribers ?c2 ?i = Some ?s" and n: "subjects ?c2 ?i = map Next vs"
    using fold_truthy_yields [OF a _ assms] b by auto
  have "snd (round_trip name args schema (Generates items (Some trace)) c)
      = dispatch (error_message ?i trace) ?c2"
    by (simp add: round_trip_def split_def send_state)
  then have "subjects (snd (round_trip name args schema (Generates items (Some trace)) c)) ?i
      = map Next vs @ [Failed (JArray (map JString trace))]"
    using s n by (simp add: dispatch_called_state subscriber_error)
  then show ?thesis
    by (simp add: toPromise_def toPromise_from_values)
qed

section \<open>Reading chunks\<close>

lemma subscriber_buffer_update:
  "subscriber s data (c\<lparr>buffer := b\<rparr>) = (subscriber s data c)\<lparr>buffer := b\<rparr>"
  by (simp add: subscriber_def Let_def subject_call_def delete_subscriber_def split: option.splits)

lemma dispatch_buffer_update:
  "dispatch res (c\<lparr>buffer := b\<rparr>) = (dispatch res c)\<lparr>buffer := b\<rparr>"
  by (simp add: dispatch_def Let_def subscriber_def subject_call_def delete_subscriber_def
      split: option.splits)

lemma process_message_buffer_update:
  "process_message parse m (c\<lparr>buffer := b\<rparr>) = (process_message parse m c)\<lparr>buffer := b\<rparr>"
  by (simp add: process_message_def warn_def dispatch_buffer_update split: option.splits)

lemma fold_process_buffer_update:
  "fold (process_message parse) ms (c\<lparr>buffer := b\<rparr>)
     = (fold (process_message parse) ms c)\<lparr>buffer := b\<rparr>"
  by (induction ms arbitrary: c) (simp_all add: process_message_buffer_update)

lemma read_no_newline:
  "newline \<notin> set data \<Longrightarrow> read parse data c = c\<lparr>buffer := buffer c @ [data]\<rparr>"
  by (simp add: read_def Let_def)

lemma read_newline:
  "newline \<in> set data \<Longrightarrow>
     read parse data c
       = (fold (process_message parse) (split_newline (trim (concat (buffer c) @ data))) c)
           \<lparr>buffer := []\<rparr>"
  by (simp add: read_def Let_def fold_process_buffer_update)

lemma read_split:
  assumes "newline \<notin> set a" and "newline \<in> set b"
  shows "read parse b (read parse a c) = read parse (a @ b) c"
  using assms by (simp add: read_no_newline read_newline fold_process_buffer_update)

lemma trim_yield_line: "trim yield_line = yield_text"
  by (simp add: trim_def yield_line_def yield_text_def is_space_def newline_def)

lemma split_yield_text: "split_newline yield_text = [yield_text]"
  by (simp add: yield_text_def newline_def)

lemma read_yield_line:
  "buffer c = [] \<Longrightarrow>
     read parse yield_line c = (process_message parse yield_text c)\<lparr>buffer := []\<rparr>"
  by (simp add: read_newline yield_line_def [of] trim_yield_line [unfolded yield_line_def]
      split_yield_text)

lemma take_yield_line:
  "k \<le> 18 \<Longrightarrow> newline \<notin> set (take k yield_line) \<and> newline \<in> set (drop k yield_line)"
proof -
  assume k: "k \<le> 18"
  have l: "length yield_text = 18" by (simp add: yield_text_def)
  have n: "newline \<notin> set yield_text" by (simp add: yield_text_def newline_def)
  have "take k yield_line = take k yield_text"
    using k l by (simp add: yield_line_def)
  moreover have "drop k yield_line = drop k yield_text @ [newline]"
    using k l by (simp add: yield_line_def)
  ultimately show ?thesis using n by (auto dest: in_set_takeD)
qed

section \<open>Building and calling the facade\<close>

lemma controller_new:
  assumes "controllers b moduleName = None" and "moduleName \<notin> set Object_prototype"
  shows "controller moduleName schema b
     = (Facade \<lparr>proxy_controller = allocated b, proxy_schema = schema\<rparr>,
        b\<lparr>controllers := (controllers b)(moduleName \<mapsto>
               \<lparr>proxy_controller = allocated b, proxy_schema = schema\<rparr>),
          heap := (heap b)(allocated b := new_Controller),
          allocated := allocated b + 1\<rparr>)"
  using assms by (simp add: controller_def Let_def)

lemma controller_cached:
  "controllers b moduleName = Some p \<Longrightarrow> controller moduleName schema b = (Facade p, b)"
  by (simp add: controller_def)

lemma proxy_call_declared:
  assumes "name \<noteq> ''process''" and "proxy_schema p name = Some fn"
  shows "proxy_call p name args b
     = Inr (ThePromise (proxy_controller p) (messageId (heap b (proxy_controller p))),
            b\<lparr>heap := (heap b)(proxy_controller p :=
                 snd (send name args (returnType fn) (heap b (proxy_controller p))))\<rparr>)"
  using assms by (simp add: proxy_call_def Let_def split_def send_state)

lemma proxy_call_undeclared:
  "proxy_schema p name = None \<Longrightarrow> proxy_call p name args b = Inl TypeError"
  by (simp add: proxy_call_def)

section \<open>Single values\<close>

text \<open>
  C2, at a method that returns 0. The hook prints the Yield with 0 and then the
  Completion. The callback reads the Yield by the truthiness of its value, takes it for a
  completion, completes the subject without a value and unregisters itself; the Completion
  that follows finds no callback and is dropped. The caller sees one completion and no
  value, and the promise resolves with \<^verbatim>\<open>undefined\<close>, not with 0.
\<close>

theorem falsy_return_lost:
  "hook \<lparr>req_id = 0, req_method = ''f'', req_args = []\<rparr> (Returns (JNumber 0))
     = [yield_message 0 (JNumber 0), completion_message 0]
   \<and> subjects (snd (round_trip ''f'' [] accept_all (Returns (JNumber 0)) new_Controller)) 0
     = [Complete]
   \<and> received (snd (round_trip ''f'' [] accept_all (Returns (JNumber 0)) new_Controller)) 0
     = [yield_message 0 (JNumber 0)]
   \<and> dropped (snd (round_trip ''f'' [] accept_all (Returns (JNumber 0)) new_Controller))
     = [completion_message 0]
   \<and> map (\<lambda>v. toPromise
              (subjects (snd (round_trip ''f'' [] accept_all (Returns v) new_Controller)) 0))
         [JNumber 0, JBool False, JString [], JNull]
     = [Resolved None, Resolved None, Resolved None, Resolved None]"
  by (simp add: round_trip_def split_def send_state dispatch_called_state dispatch_dropped_state
      subscriber_yield_falsy new_Controller_def toPromise_def)

text \<open>
  C8, at a generator that produces 0 and then raises. The hook prints the Yield with 0
  and one Error, and no Completion. The callback takes the falsy Yield for a completion
  and unregisters itself, the Error is dropped, and the promise resolves with
  \<^verbatim>\<open>undefined\<close> instead of rejecting.
\<close>

theorem raising_generator_resolves:
  "hook \<lparr>req_id = 0, req_method = ''g'', req_args = []\<rparr> (Generates [JNumber 0] (Some [''boom'']))
     = [yield_message 0 (JNumber 0), error_message 0 [''boom'']]
   \<and> subjects (snd (round_trip ''g'' [] accept_all (Generates [JNumber 0] (Some [''boom''])) new_Controller)) 0
     = [Complete]
   \<and> toPromise (subjects (snd (round_trip ''g'' [] accept_all (Generates [JNumber 0] (Some [''boom''])) new_Controller)) 0)
     = Resolved None
   \<and> dropped (snd (round_trip ''g'' [] accept_all (Generates [JNumber 0] (Some [''boom''])) new_Controller))
     = [error_message 0 [''boom'']]"
  by (simp add: round_trip_def split_def send_state dispatch_called_state dispatch_dropped_state
      subscriber_yield_falsy new_Controller_def toPromise_def)

section \<open>Validation\<close>

text \<open>
  C5 as stated fails: a call whose schema accepts nothing is sent the Yield 5. Nothing is
  called on its subject and its promise stays pending; after the Completion the promise
  resolves with \<^verbatim>\<open>undefined\<close>. The caller never sees a failure.
\<close>

theorem invalid_yield_resolves:
  "subjects (dispatch (yield_message 0 (JNumber 5))
       (snd (send ''f'' [] reject_all new_Controller))) 0 = []
   \<and> toPromise (subjects (dispatch (yield_message 0 (JNumber 5))
       (snd (send ''f'' [] reject_all new_Controller))) 0) = Pending
   \<and> toPromise (subjects (snd (round_trip ''f'' [] reject_all (Returns (JNumber 5)) new_Controller)) 0)
     = Resolved None"
  by (simp add: round_trip_def split_def send_state dispatch_called_state dispatch_dropped_state
      subscriber_yield_invalid subscriber_completion new_Controller_def toPromise_def reject_all_def)

text \<open>
  C5, amended. For every pending call: when a decoded message carries the id of the call
  and a \<^verbatim>\<open>yield\<close> whose value is truthy, and the schema of the call rejects that
  value, the failure is caught and discarded. Nothing is called on any subject, so the
  caller of that call gets neither the value nor an error and its promise is where it was;
  the callback stays registered; every other call of the session is left as it was.
  (A Yield with a falsy value is never given to the schema; what happens to it is the
  matter of C2.)
\<close>

theorem invalid_yield_swallowed:
  assumes "subscribers c (msg_id res) = Some s"
    and "msg_yield res = Some y"
    and "truthy y"
    and "sub_schema s y = None"
  shows "subjects (dispatch res c) = subjects c
       \<and> subscribers (dispatch res c) = subscribers c
       \<and> messageId (dispatch res c) = messageId c
       \<and> stdin (dispatch res c) = stdin c
       \<and> toPromise (subjects (dispatch res c) (msg_id res)) = toPromise (subjects c (msg_id res))"
  using assms by (simp add: dispatch_def Let_def subscriber_def)

theorem invalid_yield_swallowed_witness:
  "subscribers (snd (send ''f'' [] reject_all new_Controller)) 0
     = Some \<lparr>sub_messageId = 0, sub_schema = reject_all\<rparr>
   \<and> msg_yield (yield_message 0 (JNumber 5)) = Some (JNumber 5)
   \<and> truthy (JNumber 5)
   \<and> reject_all (JNumber 5) = None
   \<and> subjects (dispatch (yield_message 0 (JNumber 5)) (snd (send ''f'' [] reject_all new_Controller)))
     = subjects (snd (send ''f'' [] reject_all new_Controller))
   \<and> subscribers (dispatch (yield_message 0 (JNumber 5)) (snd (send ''f'' [] reject_all new_Controller)))
     = subscribers (snd (send ''f'' [] reject_all new_Controller))
   \<and> toPromise (subjects (dispatch (yield_message 0 (JNumber 5))
                  (snd (send ''f'' [] reject_all new_Controller))) 0)
     = Pending"
proof -
  let ?c = "snd (send ''f'' [] reject_all new_Controller)"
  let ?s = "\<lparr>sub_messageId = 0, sub_schema = reject_all\<rparr>"
  have a: "subscribers ?c (msg_id (yield_message 0 (JNumber 5))) = Some ?s"
    by (simp add: send_state new_Controller_def)
  have y: "msg_yield (yield_message 0 (JNumber 5)) = Some (JNumber 5)"
    by (simp add: yield_message_def)
  have t: "truthy (JNumber 5)"
    by simp
  have r: "sub_schema ?s (JNumber 5) = None"
    by (simp add: reject_all_def)
  have p: "toPromise (subjects ?c 0) = Pending"
    by (simp add: send_state new_Controller_def toPromise_def)
  show ?thesis
    using invalid_yield_swallowed [OF a y t r] a y r p by simp
qed

section \<open>Chunks\<close>

text \<open>
  C4. Starting with an empty buffer, and with a decoder that reads the text
  \<^verbatim>\<open>{"id":1,"yield":1}\<close> as the Yield with id 1 and value 1: for every offset
  \<open>k\<close>, feeding the first \<open>k\<close> bytes of the line and then the rest leaves the
  controller as feeding the whole line does (but for an empty chunk left in the buffer
  when \<open>k\<close> is past the newline), which is one dispatch of that Yield: exactly one
  event is decoded.
\<close>

theorem split_line_one_event:
  assumes "buffer c = []"
    and "parse yield_text = Some (yield_message 1 (JNumber 1))"
  shows "(read parse (drop k yield_line) (read parse (take k yield_line) c))\<lparr>buffer := []\<rparr>
           = read parse yield_line c
       \<and> read parse yield_line c = (dispatch (yield_message 1 (JNumber 1)) c)\<lparr>buffer := []\<rparr>
       \<and> decoded (read parse (drop k yield_line) (read parse (take k yield_line) c))
           = decoded c @ [yield_message 1 (JNumber 1)]
       \<and> concat (buffer (read parse (drop k yield_line) (read parse (take k yield_line) c))) = []"
proof -
  have t: "take 2 yield_text = ''{'' @ [CHR 0x22]"
    by (simp add: yield_text_def)
  have one: "read parse yield_line c = (dispatch (yield_message 1 (JNumber 1)) c)\<lparr>buffer := []\<rparr>"
    using assms by (simp add: read_yield_line process_message_def t)
  have two: "(read parse (drop k yield_line) (read parse (take k yield_line) c))\<lparr>buffer := []\<rparr>
           = read parse yield_line c
        \<and> concat (buffer (read parse (drop k yield_line) (read parse (take k yield_line) c))) = []"
  proof (cases "k \<le> 18")
    case True
    have "read parse (drop k yield_line) (read parse (take k yield_line) c)
            = read parse (take k yield_line @ drop k yield_line) c"
      using take_yield_line [OF True] by (simp add: read_split)
    then show ?thesis by (simp add: one)
  next
    case False
    have l: "length yield_line = 19" by (simp add: yield_line_def yield_text_def)
    have "take k yield_line = yield_line" "drop k yield_line = []"
      using False l by simp_all
    then show ?thesis by (simp add: read_no_newline one)
  qed
  let ?two = "read parse (drop k yield_line) (read parse (take k yield_line) c)"
  have "decoded ?two = decoded (?two\<lparr>buffer := []\<rparr>)"
    by simp
  also have "\<dots> = decoded c @ [yield_message 1 (JNumber 1)]"
    using one two by simp
  finally show ?thesis using one two by simp
qed

theorem split_line_one_event_witness:
  "buffer two_calls = []
   \<and> parse_sample yield_text = Some (yield_message 1 (JNumber 1))
   \<and> decoded (read parse_sample (drop 7 yield_line) (read parse_sample (take 7 yield_line) two_calls))
       = [yield_message 1 (JNumber 1)]
   \<and> (read parse_sample (drop 7 yield_line) (read parse_sample (take 7 yield_line) two_calls))
         \<lparr>buffer := []\<rparr>
       = read parse_sample yield_line two_calls"
proof -
  have b: "buffer two_calls = []"
    by (simp add: two_calls_def one_call_def send_state new_Controller_def)
  have d: "decoded two_calls = []"
    by (simp add: two_calls_def one_call_def send_state new_Controller_def)
  have p: "parse_sample yield_text = Some (yield_message 1 (JNumber 1))"
    by (simp add: parse_sample_def yield_text_def)
  show ?thesis
    using split_line_one_event [where c = two_calls and parse = parse_sample and k = 7] b p d
    by simp
qed

text \<open>
  C3, at the output of a generator for the call 0 with the chunk boundary inside the second
  message. After the first chunk the buffer is empty: the bytes after the last newline
  were given to the decoder as if they were a line, failed to parse, and were discarded
  with the rest. The second chunk alone does not open with a brace and a quote, so it is
  skipped: the second event is lost although its newline arrived. The same bytes in one
  chunk deliver both events.
\<close>

theorem tail_after_newline_lost:
  \<open>buffer (read parse_sample first_chunk one_call) = []
   \<and> warnings (read parse_sample first_chunk one_call) = [''Could not parse: {"id": 0, "yi'']
   \<and> received (read parse_sample second_chunk (read parse_sample first_chunk one_call)) 0
       = [yield_message 0 (JNumber 1)]
   \<and> received (read parse_sample (first_chunk @ second_chunk) one_call) 0
       = [yield_message 0 (JNumber 1), yield_message 0 (JNumber 2)]\<close>
proof -
  have b: "buffer one_call = []"
    by (simp add: one_call_def send_state new_Controller_def)
  have t1: \<open>split_newline (trim first_chunk)
      = [''{"id": 0, "yield": 1}'', [], ''{"id": 0, "yi'']\<close>
    by (simp add: first_chunk_def trim_def is_space_def newline_def)
  have t2: \<open>split_newline (trim (first_chunk @ second_chunk))
      = [''{"id": 0, "yield": 1}'', [], ''{"id": 0, "yield": 2}'']\<close>
    by (simp add: first_chunk_def second_chunk_def trim_def is_space_def newline_def)
  have t3: \<open>split_newline (trim second_chunk) = [''eld": 2}'']\<close>
    by (simp add: second_chunk_def trim_def is_space_def newline_def)
  have n1: "newline \<in> set first_chunk" by (simp add: first_chunk_def)
  have n2: "newline \<in> set second_chunk" by (simp add: second_chunk_def)
  have n3: "newline \<in> set (first_chunk @ second_chunk)" by (simp add: first_chunk_def)
  have r1: \<open>read parse_sample first_chunk one_call
      = (warn ''{"id": 0, "yi'' (dispatch (yield_message 0 (JNumber 1)) one_call))
          \<lparr>buffer := []\<rparr>\<close>
    using b t1 by (simp add: read_newline [OF n1] process_message_def parse_sample_def)
  have r2: "read parse_sample second_chunk (read parse_sample first_chunk one_call)
      = read parse_sample first_chunk one_call"
    unfolding r1 using t3 by (simp add: read_newline [OF n2] process_message_def)
  have r3: "read parse_sample (first_chunk @ second_chunk) one_call
      = (dispatch (yield_message 0 (JNumber 2))
          (dispatch (yield_message 0 (JNumber 1)) one_call))\<lparr>buffer := []\<rparr>"
    using b t2 by (simp add: read_newline [OF n3] process_message_def parse_sample_def)
  have d1: "received (dispatch (yield_message 0 (JNumber 1)) one_call) 0
      = [yield_message 0 (JNumber 1)]"
    by (simp add: one_call_def send_state dispatch_called_state subscriber_yield accept_all_def
        new_Controller_def)
  have d2: "received (dispatch (yield_message 0 (JNumber 2))
          (dispatch (yield_message 0 (JNumber 1)) one_call)) 0
        = [yield_message 0 (JNumber 1), yield_message 0 (JNumber 2)]"
    by (simp add: one_call_def send_state dispatch_called_state subscriber_yield accept_all_def
        new_Controller_def)
  have w: "warnings (dispatch (yield_message 0 (JNumber 1)) one_call) = []"
    by (simp add: one_call_def send_state dispatch_called_state subscriber_yield accept_all_def
        new_Controller_def)
  show ?thesis
    unfolding r2 unfolding r1 r3 using d1 d2 w by (simp add: warn_def)
qed

section \<open>The facade\<close>

text \<open>
  C10. When a module name (one that \<^verbatim>\<open>Object.prototype\<close> does not own) is first
  given to \<^verbatim>\<open>controller\<close> with one schema and then again with another, the second
  call returns the proxy that the first call made and changes nothing; a method called
  through it is registered with the return type that the first schema declares, and a
  name that the first schema does not declare fails whatever the second schema says.
\<close>

theorem second_schema_ignored:
  assumes "controllers b moduleName = None" and "moduleName \<notin> set Object_prototype"
  shows
    "fst (controller moduleName schema1 b)
       = Facade \<lparr>proxy_controller = allocated b, proxy_schema = schema1\<rparr>
     \<and> controller moduleName schema2 (snd (controller moduleName schema1 b))
       = (Facade \<lparr>proxy_controller = allocated b, proxy_schema = schema1\<rparr>,
          snd (controller moduleName schema1 b))
     \<and> (name \<noteq> ''process'' \<and> schema1 name = Some fn \<longrightarrow>
          (\<exists>b2. proxy_call \<lparr>proxy_controller = allocated b, proxy_schema = schema1\<rparr> name args
                   (snd (controller moduleName schema1 b))
                 = Inr (ThePromise (allocated b) 0, b2)
               \<and> subscribers (heap b2 (allocated b)) 0
                 = Some \<lparr>sub_messageId = 0, sub_schema = returnType fn\<rparr>))
     \<and> (schema1 name = None \<longrightarrow>
          proxy_call \<lparr>proxy_controller = allocated b, proxy_schema = schema1\<rparr> name args
            (snd (controller moduleName schema1 b)) = Inl TypeError)"
proof -
  let ?p = "\<lparr>proxy_controller = allocated b, proxy_schema = schema1\<rparr>"
  let ?b1 = "snd (controller moduleName schema1 b)"
  have 1: "fst (controller moduleName schema1 b) = Facade ?p"
    by (simp add: controller_new [OF assms])
  have c: "controllers ?b1 moduleName = Some ?p"
    by (simp add: controller_new [OF assms])
  have 2: "controller moduleName schema2 ?b1 = (Facade ?p, ?b1)"
    by (rule controller_cached [OF c])
  have h: "heap ?b1 (allocated b) = new_Controller"
    by (simp add: controller_new [OF assms])
  have 3: "\<exists>b2. proxy_call ?p name args ?b1 = Inr (ThePromise (allocated b) 0, b2)
               \<and> subscribers (heap b2 (allocated b)) 0
                 = Some \<lparr>sub_messageId = 0, sub_schema = returnType fn\<rparr>"
    if "name \<noteq> ''process''" and "schema1 name = Some fn"
    using that by (simp add: proxy_call_declared h send_state new_Controller_def)
  have 4: "proxy_call ?p name args ?b1 = Inl TypeError" if "schema1 name = None"
    using that by (simp add: proxy_call_undeclared)
  show ?thesis using 1 2 3 4 by blast
qed

theorem second_schema_ignored_witness:
  "controllers new_PyBridge ''nlp'' = None \<and> ''nlp'' \<notin> set Object_prototype
   \<and> controller ''nlp'' second_contract (snd (controller ''nlp'' first_contract new_PyBridge))
       = (Facade \<lparr>proxy_controller = 0, proxy_schema = first_contract\<rparr>,
          snd (controller ''nlp'' first_contract new_PyBridge))
   \<and> proxy_call \<lparr>proxy_controller = 0, proxy_schema = first_contract\<rparr> ''g'' []
         (snd (controller ''nlp'' first_contract new_PyBridge)) = Inl TypeError"
proof -
  have a: "controllers new_PyBridge ''nlp'' = None"
    by (simp add: new_PyBridge_def)
  have b: "''nlp'' \<notin> set Object_prototype"
    by (simp add: Object_prototype_def)
  have n: "allocated new_PyBridge = 0"
    by (simp add: new_PyBridge_def)
  have g: "first_contract ''g'' = None"
    by (simp add: first_contract_def)
  show ?thesis
    using second_schema_ignored [OF a b, of first_contract second_contract "''g''" _ "[]"] a b g
    unfolding n by simp
qed

text \<open>
  C7 as stated fails: a facade is built for a contract that declares \<^verbatim>\<open>f\<close> only,
  and building it succeeds; calling \<^verbatim>\<open>g\<close> on it is what throws.
\<close>

theorem undeclared_accepted_at_construction:
  "fst (controller ''nlp'' first_contract new_PyBridge)
     = Facade \<lparr>proxy_controller = 0, proxy_schema = first_contract\<rparr>
   \<and> first_contract ''g'' = None
   \<and> proxy_call \<lparr>proxy_controller = 0, proxy_schema = first_contract\<rparr> ''g'' []
        (snd (controller ''nlp'' first_contract new_PyBridge)) = Inl TypeError"
  by (simp add: controller_def new_PyBridge_def Object_prototype_def first_contract_def
      proxy_call_def Let_def)

text \<open>
  C7, amended. Building the facade checks no method name. Calling a name that the contract
  does not declare is rejected when the method is invoked: the call throws a TypeError
  before an id is taken or a request written.
\<close>

theorem undeclared_fails_at_call:
  assumes "controllers b moduleName = None" and "moduleName \<notin> set Object_prototype"
    and "schema name = None"
  shows "fst (controller moduleName schema b)
           = Facade \<lparr>proxy_controller = allocated b, proxy_schema = schema\<rparr>
       \<and> proxy_call \<lparr>proxy_controller = allocated b, proxy_schema = schema\<rparr> name args
            (snd (controller moduleName schema b)) = Inl TypeError"
  using assms by (simp add: controller_new proxy_call_undeclared)

theorem undeclared_fails_at_call_witness:
  "controllers new_PyBridge ''nlp'' = None \<and> ''nlp'' \<notin> set Object_prototype
   \<and> second_contract ''h'' = None
   \<and> proxy_call \<lparr>proxy_controller = 0, proxy_schema = second_contract\<rparr> ''h'' [JNumber 1]
        (snd (controller ''nlp'' second_contract new_PyBridge)) = Inl TypeError"
proof -
  have a: "controllers new_PyBridge ''nlp'' = None"
    by (simp add: new_PyBridge_def)
  have b: "''nlp'' \<notin> set Object_prototype"
    by (simp add: Object_prototype_def)
  have n: "allocated new_PyBridge = 0"
    by (simp add: new_PyBridge_def)
  have h: "second_contract ''h'' = None"
    by (simp add: second_contract_def)
  show ?thesis
    using undeclared_fails_at_call [where b = new_PyBridge and moduleName = "''nlp''"
        and schema = second_contract and name = "''h''" and args = "[JNumber 1]"] a b h
    unfolding n by simp
qed

text \<open>
  C6, at a contract whose method \<^verbatim>\<open>stream\<close> is declared to return a
  \<^verbatim>\<open>Subject\<close>. The type \<^verbatim>\<open>PromisifyFn\<close> gives the caller the subject; the
  function the proxy returns hands back the promise of the subject. The request is
  written when the method is invoked. For a generator that produces 1, 2, 3 the promise
  resolves with 3, and the caller never sees 1 and 2.
\<close>

theorem stream_method_gets_promise:
  "stream_contract ''stream'' = Some stream_fn
   \<and> returns_Subject stream_fn
   \<and> PromisifyFn stream_fn 0 0 = TheSubject 0 0
   \<and> fst (controller ''nlp'' stream_contract new_PyBridge)
       = Facade \<lparr>proxy_controller = 0, proxy_schema = stream_contract\<rparr>
   \<and> map_sum id (\<lambda>(r, b). (r, stdin (heap b 0)))
         (proxy_call \<lparr>proxy_controller = 0, proxy_schema = stream_contract\<rparr> ''stream'' []
            (snd (controller ''nlp'' stream_contract new_PyBridge)))
       = Inr (ThePromise 0 0, [\<lparr>req_id = 0, req_method = ''stream'', req_args = []\<rparr>])
   \<and> toPromise (subjects (snd (round_trip ''stream'' [] accept_all
          (Generates [JNumber 1, JNumber 2, JNumber 3] None) new_Controller)) 0)
       = Resolved (Some (JNumber 3))"
proof -
  have 1: "stream_contract ''stream'' = Some stream_fn \<and> returns_Subject stream_fn
      \<and> PromisifyFn stream_fn 0 0 = TheSubject 0 0"
    by (simp add: stream_contract_def stream_fn_def PromisifyFn_def)
  have 2: "fst (controller ''nlp'' stream_contract new_PyBridge)
       = Facade \<lparr>proxy_controller = 0, proxy_schema = stream_contract\<rparr>"
    by (simp add: controller_def new_PyBridge_def Object_prototype_def Let_def)
  have 3: "map_sum id (\<lambda>(r, b). (r, stdin (heap b 0)))
         (proxy_call \<lparr>proxy_controller = 0, proxy_schema = stream_contract\<rparr> ''stream'' []
            (snd (controller ''nlp'' stream_contract new_PyBridge)))
       = Inr (ThePromise 0 0, [\<lparr>req_id = 0, req_method = ''stream'', req_args = []\<rparr>])"
    by (simp add: controller_def new_PyBridge_def Object_prototype_def stream_contract_def
        proxy_call_def Let_def split_def send_state new_Controller_def)
  have 4: "toPromise (subjects (snd (round_trip ''stream'' [] accept_all
          (Generates [JNumber 1, JNumber 2, JNumber 3] None) new_Controller)) 0)
       = Resolved (Some (JNumber 3))"
    by (simp add: round_trip_def split_def send_state dispatch_called_state subscriber_yield
        subscriber_completion new_Controller_def toPromise_def accept_all_def)
  show ?thesis using 1 2 3 4 by simp
qed

end
